theory Spec2Isabelle
  imports Main "HOL-Library.Char_ord" "HOL-Library.List_Lexorder"
begin

section \<open>Serial data logger: the session of \<^verbatim>\<open>main.go\<close>\<close>

text \<open>
  The program has two goroutines: \<^verbatim>\<open>main\<close>, which loops over blocking reads of the
  serial port and appends one CSV row per read, and \<^verbatim>\<open>checkKeys\<close>, which loops over
  blocking one-byte reads of the terminal. They share the globals \<^verbatim>\<open>file\<close>,
  \<^verbatim>\<open>writer\<close> and \<^verbatim>\<open>exitWithoutSaving\<close>.

  The model is a state machine over the session state. Its events are the returns of
  the blocking reads, in the order the environment delivers them; each goroutine runs
  from the return of one blocking read up to its next blocking read (or up to
  \<^verbatim>\<open>os.Exit\<close>) as one step. The source has no synchronisation between the two
  goroutines, so interleavings inside one such step are not covered by this model.

  The medium that holds the CSV file may reject writes (a full disk, say). The rows of
  one iteration are far smaller than the writer's buffer of 4096 bytes (a chunk has at
  most the 128 bytes of \<^verbatim>\<open>buf\<close>), so \<^verbatim>\<open>writer.Write\<close> only fills the buffer and it
  is \<^verbatim>\<open>writer.Flush\<close> that writes to the medium.
\<close>

subsection \<open>Wall-clock readings and \<^verbatim>\<open>time.Format\<close>\<close>

text \<open>
  A reading of \<^verbatim>\<open>time.Now()\<close>, broken down into the civil fields that
  \<^verbatim>\<open>Format\<close> prints (local time).
\<close>

record gotime =
  tm_year :: nat
  tm_month :: nat
  tm_day :: nat
  tm_hour :: nat
  tm_minute :: nat
  tm_second :: nat
  tm_nanosecond :: nat

definition digit_char :: "nat \<Rightarrow> char" where
  "digit_char d = char_of (48 + d)"

fun digits :: "nat \<Rightarrow> string" where
  "digits n = (if n < 10 then [digit_char n] else digits (n div 10) @ [digit_char (n mod 10)])"

declare digits.simps [simp del]

text \<open>
  \<^verbatim>\<open>appendInt(b, x, width)\<close> of package time, for \<open>x \<ge> 0\<close>: the decimal digits of
  \<open>x\<close>, padded with zeros on the left up to \<open>width\<close>; a longer number is not cut.
\<close>

definition appendInt :: "nat \<Rightarrow> nat \<Rightarrow> string" where
  "appendInt x width = replicate (width - length (digits x)) (CHR ''0'') @ digits x"

text \<open>
  The layout \<^verbatim>\<open>"2006-01-02 15:04:05.000"\<close> (main, line 200): four-digit year,
  two-digit month, day, hour, minute and second, and the fractional second as the first
  three of the nine nanosecond digits (cut, not rounded).
\<close>

definition Format_ms :: "gotime \<Rightarrow> string" where
  "Format_ms t =
     appendInt (tm_year t) 4 @ ''-'' @ appendInt (tm_month t) 2 @ ''-'' @ appendInt (tm_day t) 2
     @ '' '' @ appendInt (tm_hour t) 2 @ '':'' @ appendInt (tm_minute t) 2
     @ '':'' @ appendInt (tm_second t) 2 @ ''.'' @ take 3 (appendInt (tm_nanosecond t) 9)"

text \<open>The layout \<^verbatim>\<open>"20060102_150405"\<close> (createCSVFile, line 91).\<close>

definition Format_name :: "gotime \<Rightarrow> string" where
  "Format_name t =
     appendInt (tm_year t) 4 @ appendInt (tm_month t) 2 @ appendInt (tm_day t) 2
     @ ''_'' @ appendInt (tm_hour t) 2 @ appendInt (tm_minute t) 2 @ appendInt (tm_second t) 2"

subsection \<open>What the environment delivers\<close>

text \<open>
  One call of \<^verbatim>\<open>s.Read(buf)\<close>: either an error, or the \<open>n\<close> bytes now in
  \<^verbatim>\<open>buf[:n]\<close>.
\<close>

datatype read_result = ReadData string | ReadError string

text \<open>
  One call of \<^verbatim>\<open>readChar\<close>: \<^verbatim>\<open>term.MakeRaw\<close> fails, or \<^verbatim>\<open>os.Stdin.Read\<close>
  stores one byte, or it stores none (its result is not looked at, and the buffer keeps
  its zero byte).
\<close>

datatype raw_read = MakeRawError string | StdinByte char | StdinNone

text \<open>
  \<open>Serial r now m\<close>: the serial read of the main loop returns \<open>r\<close>; if the iteration
  gets that far, \<^verbatim>\<open>time.Now()\<close> reads \<open>now\<close>; and from this iteration on the medium
  answers a write with \<open>m\<close> (\<open>None\<close>: it takes the bytes, \<open>Some e\<close>: it rejects them
  with the error \<open>e\<close>). \<open>Key k\<close>: the terminal read of the key watcher returns \<open>k\<close>.
\<close>

datatype event = Serial read_result gotime "string option" | Key raw_read

subsection \<open>The session state\<close>

datatype proc = Running | Exited int

text \<open>The two places where \<^verbatim>\<open>checkKeys\<close> blocks: line 112 and line 125.\<close>

datatype watcher_pc = AwaitKey | AwaitNextKey

datatype deferred_call = PortClose | FileClose

type_synonym row = "string list"

text \<open>
  A \<^verbatim>\<open>csv.Writer\<close>: the rows in its buffer, and the error its buffered writer keeps
  once a write to the file has failed (from then on every call returns that error and
  does nothing else).
\<close>

record csv_writer =
  buffered :: "row list"
  sticky :: "string option"

record session =
  status :: proc
  console :: "string list"
  deferred :: "deferred_call list"
  file_g :: "string option"
  writer_g :: "csv_writer option"
  exitWithoutSaving :: bool
  handle_open :: bool
  close_calls :: nat
  on_medium :: bool
  contents :: "row list"
  medium_fault :: "string option"
  watcher :: watcher_pc

text \<open>
  \<open>file_g\<close> is the global \<^verbatim>\<open>file\<close> (\<open>None\<close> is \<^verbatim>\<open>nil\<close>, otherwise the file's name),
  \<open>writer_g\<close> the global \<^verbatim>\<open>writer\<close>.
  \<open>handle_open\<close> says whether the file's handle is open, \<open>close_calls\<close> counts the
  calls of \<^verbatim>\<open>file.Close()\<close>, \<open>on_medium\<close> says whether the file exists on the medium
  and \<open>contents\<close> holds the rows written through to it; \<open>medium_fault\<close> is the
  medium's present answer to a write. \<open>console\<close> collects what is
  printed, one element for each call, without the final newline and without the date
  prefix of package log; \<open>deferred\<close> holds the calls registered by \<^verbatim>\<open>defer\<close> in
  \<^verbatim>\<open>main\<close>.
\<close>

definition initial :: session where
  "initial = \<lparr> status = Running, console = [], deferred = [], file_g = None, writer_g = None,
     exitWithoutSaving = False, handle_open = False, close_calls = 0, on_medium = False,
     contents = [], medium_fault = None, watcher = AwaitKey \<rparr>"

subsection \<open>Library calls\<close>

text \<open>
  \<^verbatim>\<open>os.Exit\<close> ends the process at once; the deferred calls of \<^verbatim>\<open>main\<close> are not run.
\<close>

definition os_Exit :: "int \<Rightarrow> session \<Rightarrow> session" where
  "os_Exit code st = st\<lparr>status := Exited code\<rparr>"

definition print :: "string \<Rightarrow> session \<Rightarrow> session" where
  "print msg st = st\<lparr>console := console st @ [msg]\<rparr>"

text \<open>\<^verbatim>\<open>log.Fatal\<close> and \<^verbatim>\<open>log.Fatalf\<close>: print, then \<^verbatim>\<open>os.Exit(1)\<close>.\<close>

definition log_Fatal :: "string \<Rightarrow> session \<Rightarrow> session" where
  "log_Fatal msg st = os_Exit 1 (print msg st)"

definition file_Close :: "session \<Rightarrow> session" where
  "file_Close st = st\<lparr>handle_open := False, close_calls := close_calls st + 1\<rparr>"

definition os_Remove :: "session \<Rightarrow> session" where
  "os_Remove st = st\<lparr>on_medium := False, contents := []\<rparr>"

text \<open>
  Calling a method of a \<^verbatim>\<open>nil\<close> writer is a nil dereference: a panic in \<^verbatim>\<open>main\<close>,
  which runs the deferred calls and ends the process with code 2.
\<close>

definition run_deferred :: "session \<Rightarrow> session" where
  "run_deferred st =
     fold (\<lambda>d s. case d of FileClose \<Rightarrow> file_Close s | PortClose \<Rightarrow> s) (deferred st) st"

definition nil_panic :: "session \<Rightarrow> session" where
  "nil_panic st =
     os_Exit 2 (print ''panic: runtime error: invalid memory address or nil pointer dereference''
       (run_deferred st))"

text \<open>
  \<^verbatim>\<open>w.Write(record)\<close>: with no error kept, the row goes into the buffer and the result
  is \<^verbatim>\<open>nil\<close>; otherwise the kept error is returned and nothing is buffered.
\<close>

definition csv_Write :: "row \<Rightarrow> csv_writer \<Rightarrow> string option \<times> csv_writer" where
  "csv_Write r w =
     (case sticky w of
        Some e \<Rightarrow> (Some e, w)
      | None \<Rightarrow> (None, w\<lparr>buffered := buffered w @ [r]\<rparr>))"

text \<open>
  \<^verbatim>\<open>writer.Flush()\<close>, which returns nothing: with an error kept or an empty buffer it
  does nothing; otherwise it writes the buffer to the file. When the handle is closed or
  the medium rejects the bytes, the rows stay in the buffer and the error is kept in the
  writer, where only a later \<^verbatim>\<open>Write\<close> (or \<^verbatim>\<open>writer.Error()\<close>, which the program never
  calls) would show it.
\<close>

definition writer_Flush :: "session \<Rightarrow> session" where
  "writer_Flush st =
     (case writer_g st of
        None \<Rightarrow> nil_panic st
      | Some w \<Rightarrow>
          (case sticky w of
             Some e \<Rightarrow> st
           | None \<Rightarrow>
               if buffered w = [] then st
               else if handle_open st then
                 (case medium_fault st of
                    Some e \<Rightarrow> st\<lparr>writer_g := Some (w\<lparr>sticky := Some e\<rparr>)\<rparr>
                  | None \<Rightarrow> st\<lparr>contents := contents st @ buffered w,
                               writer_g := Some (w\<lparr>buffered := []\<rparr>)\<rparr>)
               else st\<lparr>writer_g := Some (w\<lparr>sticky := Some ''file already closed''\<rparr>)\<rparr>))"

subsection \<open>\<^verbatim>\<open>createCSVFile\<close> and the start of \<^verbatim>\<open>main\<close>\<close>

text \<open>
  \<open>createCSVFile now err st\<close>: \<^verbatim>\<open>time.Now()\<close> reads \<open>now\<close> and \<^verbatim>\<open>os.Create\<close>
  returns the error \<open>err\<close>. On success the (empty) file is on the medium with its handle
  open, and the file's name and an empty writer are returned.
\<close>

definition createCSVFile ::
  "gotime \<Rightarrow> string option \<Rightarrow> session \<Rightarrow> (string + string \<times> csv_writer) \<times> session" where
  "createCSVFile now err st =
     (let currentTime = Format_name now;
          fileName = ''data_'' @ currentTime @ ''.csv''
      in case err of
           Some e \<Rightarrow> (Inl e, st)
         | None \<Rightarrow> (Inr (fileName, \<lparr>buffered = [], sticky = None\<rparr>),
                    st\<lparr>on_medium := True, contents := [], handle_open := True\<rparr>))"

text \<open>
  \<^verbatim>\<open>main\<close> up to the start of its loop (lines 162 to 187). \<open>open_err\<close> is the error of
  \<^verbatim>\<open>serial.OpenPort\<close>; the port's name comes from \<^verbatim>\<open>confirmComPort\<close>, which talks to
  the operator and plays no part afterwards. \<^verbatim>\<open>go checkKeys()\<close> starts the key watcher
  at its first read.
\<close>

definition main_start :: "string option \<Rightarrow> gotime \<Rightarrow> string option \<Rightarrow> session" where
  "main_start open_err now create_err =
     (case open_err of
        Some e \<Rightarrow> log_Fatal (''Failed to open COM port: '' @ e) initial
      | None \<Rightarrow>
          let st1 = initial\<lparr>deferred := [PortClose]\<rparr> in
          (case createCSVFile now create_err st1 of
             (Inl e, st2) \<Rightarrow> log_Fatal (''Failed to create CSV file: '' @ e) st2
           | (Inr (f, w), st2) \<Rightarrow>
               print ''Reading serial data. Press Alt+C to save and exit, or Ctrl+X to exit without saving.''
                 (st2\<lparr>file_g := Some f, writer_g := Some w, deferred := FileClose # deferred st2,
                      watcher := AwaitKey\<rparr>)))"

subsection \<open>One iteration of the main loop\<close>

text \<open>Lines 190 to 205: read, print, stamp, write, flush.\<close>

definition loop_body :: "read_result \<Rightarrow> gotime \<Rightarrow> session \<Rightarrow> session" where
  "loop_body r now st =
     (case r of
        ReadError e \<Rightarrow> log_Fatal (''Failed to read from serial port: '' @ e) st
      | ReadData data \<Rightarrow>
          let st1 = print (''Data received: '' @ data) st;
              currentTime = Format_ms now
          in (case writer_g st1 of
                None \<Rightarrow> nil_panic st1
              | Some w \<Rightarrow>
                  (case csv_Write [currentTime, data] w of
                     (Some e, w') \<Rightarrow> log_Fatal (''Failed to write to CSV: '' @ e) (st1\<lparr>writer_g := Some w'\<rparr>)
                   | (None, w') \<Rightarrow> writer_Flush (st1\<lparr>writer_g := Some w'\<rparr>))))"

subsection \<open>The key watcher\<close>

text \<open>
  \<^verbatim>\<open>readChar\<close>: \<open>Inl\<close> is the error that goes to \<^verbatim>\<open>log.Fatal\<close>, \<open>Inr\<close> the byte of
  the one-byte string returned.
\<close>

definition readChar :: "raw_read \<Rightarrow> string + char" where
  "readChar k = (case k of MakeRawError e \<Rightarrow> Inl e | StdinByte b \<Rightarrow> Inr b | StdinNone \<Rightarrow> Inr (CHR 0x00))"

text \<open>Lines 114 to 122: the branch for Ctrl+X.\<close>

definition discard_exit :: "session \<Rightarrow> session" where
  "discard_exit st =
     (let st1 = print (CHR 0x0A # ''Ctrl+X pressed. Exiting without saving.'') st;
          st2 = st1\<lparr>exitWithoutSaving := True\<rparr>;
          st3 = (if file_g st2 \<noteq> None then os_Remove (file_Close st2) else st2)
      in os_Exit 0 st3)"

text \<open>Lines 126 to 133: the branch for Alt+C.\<close>

definition commit_exit :: "session \<Rightarrow> session" where
  "commit_exit st =
     (let st1 = print (CHR 0x0A # ''Alt+C pressed. Saving data and exiting.'') st;
          st2 = (if writer_g st1 \<noteq> None \<and> file_g st1 \<noteq> None then file_Close (writer_Flush st1) else st1)
      in os_Exit 0 st2)"

text \<open>
  \<^verbatim>\<open>checkKeys\<close> from the return of one \<^verbatim>\<open>readChar\<close> to the next call: at line 112 the
  byte is matched against Ctrl+X and ESC, at line 125 against \<open>c\<close> and \<open>C\<close>; with no
  match the loop starts over.
\<close>

definition checkKeys :: "raw_read \<Rightarrow> session \<Rightarrow> session" where
  "checkKeys k st =
     (case readChar k of
        Inl e \<Rightarrow> log_Fatal e st
      | Inr key \<Rightarrow>
          (case watcher st of
             AwaitKey \<Rightarrow>
               if key = CHR 0x18 then discard_exit st
               else if key = CHR 0x1B then st\<lparr>watcher := AwaitNextKey\<rparr>
               else st
           | AwaitNextKey \<Rightarrow>
               if key = CHR ''c'' \<or> key = CHR ''C'' then commit_exit st
               else st\<lparr>watcher := AwaitKey\<rparr>))"

subsection \<open>The process\<close>

text \<open>
  After \<^verbatim>\<open>os.Exit\<close> nothing runs any more. A serial event first brings the medium
  into the condition it names.
\<close>

definition step :: "session \<Rightarrow> event \<Rightarrow> session" where
  "step st ev =
     (if status st \<noteq> Running then st
      else case ev of
             Serial r now m \<Rightarrow> loop_body r now (st\<lparr>medium_fault := m\<rparr>)
           | Key k \<Rightarrow> checkKeys k st)"

definition run :: "session \<Rightarrow> event list \<Rightarrow> session" where
  "run st evs = foldl step st evs"

subsection \<open>Reads, entries and reachable states\<close>

text \<open>
  The successful serial reads among a list of events, each with the clock reading of its
  iteration, and the entry that line 201 builds for one of them.
\<close>

definition read_of :: "event \<Rightarrow> (gotime \<times> string) list" where
  "read_of ev = (case ev of Serial (ReadData d) now m \<Rightarrow> [(now, d)] | _ \<Rightarrow> [])"

definition reads :: "event list \<Rightarrow> (gotime \<times> string) list" where
  "reads evs = concat (map read_of evs)"

definition entry :: "gotime \<times> string \<Rightarrow> row" where
  "entry p = [Format_ms (fst p), snd p]"

text \<open>The payloads of the successful reads, in order.\<close>

definition payloads :: "event list \<Rightarrow> string list" where
  "payloads evs = map snd (reads evs)"

text \<open>
  What holds between two steps for as long as the process runs, once \<^verbatim>\<open>main\<close> has
  opened the port and created the file.
\<close>

definition ready :: "session \<Rightarrow> bool" where
  "ready st = (status st = Running \<and> file_g st \<noteq> None \<and> handle_open st
     \<and> on_medium st \<and> close_calls st = 0 \<and> \<not> exitWithoutSaving st
     \<and> (case writer_g st of
           None \<Rightarrow> False
         | Some w \<Rightarrow> (case sticky w of None \<Rightarrow> buffered w = [] | Some e \<Rightarrow> True)))"

text \<open>No write to the file has failed so far.\<close>

definition unfailed :: "session \<Rightarrow> bool" where
  "unfailed st = (case writer_g st of None \<Rightarrow> False | Some w \<Rightarrow> sticky w = None)"

definition example_time :: gotime where
  "example_time = \<lparr>tm_year = 2024, tm_month = 9, tm_day = 8, tm_hour = 13, tm_minute = 45,
     tm_second = 23, tm_nanosecond = 123456789\<rparr>"

definition started :: session where
  "started = main_start None example_time None"

subsection \<open>The timestamp format and the order of clock readings\<close>

text \<open>
  The format of the specification, \<^verbatim>\<open>YYYY-MM-DD HH:MM:SS.mmm\<close>: a decimal digit at
  each letter, the very character elsewhere.
\<close>

definition is_digit :: "char \<Rightarrow> bool" where
  "is_digit c = (CHR ''0'' \<le> c \<and> c \<le> CHR ''9'')"

definition matches_layout :: "string \<Rightarrow> bool" where
  "matches_layout s =
     list_all2 (\<lambda>p c. if p \<in> set ''YMDHSm'' then is_digit c else c = p) ''YYYY-MM-DD HH:MM:SS.mmm'' s"

text \<open>
  Clock readings whose fields are in the range of a calendar date and a time of day,
  with a year of at most four digits; \<open>chron\<close> orders readings as the calendar does,
  \<open>stamp_key\<close> is the same with the nanoseconds cut to milliseconds.
\<close>

definition civil :: "gotime \<Rightarrow> bool" where
  "civil t = (tm_year t \<le> 9999 \<and> 1 \<le> tm_month t \<and> tm_month t \<le> 12 \<and> 1 \<le> tm_day t \<and> tm_day t \<le> 31
     \<and> tm_hour t \<le> 23 \<and> tm_minute t \<le> 59 \<and> tm_second t \<le> 59 \<and> tm_nanosecond t \<le> 999999999)"

definition chron :: "gotime \<Rightarrow> nat list" where
  "chron t = [tm_year t, tm_month t, tm_day t, tm_hour t, tm_minute t, tm_second t, tm_nanosecond t]"

definition stamp_key :: "gotime \<Rightarrow> nat list" where
  "stamp_key t = [tm_year t, tm_month t, tm_day t, tm_hour t, tm_minute t, tm_second t,
     tm_nanosecond t div 1000000]"

text \<open>
  Two readings between which the local wall clock is set back by an hour (as it is at
  the end of daylight saving time, from 02:00 to 01:00, or by an adjustment of the
  clock), and a reading shortly after \<open>example_time\<close>.
\<close>

definition before_set_back :: gotime where
  "before_set_back = \<lparr>tm_year = 2024, tm_month = 11, tm_day = 3, tm_hour = 1, tm_minute = 59,
     tm_second = 59, tm_nanosecond = 900000000\<rparr>"

definition after_set_back :: gotime where
  "after_set_back = \<lparr>tm_year = 2024, tm_month = 11, tm_day = 3, tm_hour = 1, tm_minute = 0,
     tm_second = 0, tm_nanosecond = 100000000\<rparr>"

definition later_time :: gotime where
  "later_time = example_time\<lparr>tm_second := 24, tm_nanosecond := 5000000\<rparr>"

text \<open>The last \<open>w\<close> decimal digits of \<open>n\<close>.\<close>

fun fixed :: "nat \<Rightarrow> nat \<Rightarrow> string" where
  "fixed 0 n = []"
| "fixed (Suc w) n = fixed w (n div 10) @ [digit_char (n mod 10)]"

section \<open>Properties\<close>

subsection \<open>Running a list of events\<close>

lemma run_snoc: "run st (evs @ [e]) = step (run st evs) e"
  by (simp add: run_def)

lemma run_Nil: "run st [] = st"
  by (simp add: run_def)

lemma run_Cons: "run st (e # evs) = run (step st e) evs"
  by (simp add: run_def)

lemma run_append: "run st (xs @ ys) = run (run st xs) ys"
  by (simp add: run_def)

lemma step_exited: "status st \<noteq> Running \<Longrightarrow> step st e = st"
  by (simp add: step_def)

lemma run_exited: "status st \<noteq> Running \<Longrightarrow> run st evs = st"
  by (induction evs) (simp_all add: run_Nil run_Cons step_exited)

lemma run_running_before: "status (run st (xs @ ys)) = Running \<Longrightarrow> status (run st xs) = Running"
  by (metis run_append run_exited)

lemma main_start_ready: "ready (main_start None now None)"
  by (simp add: ready_def main_start_def createCSVFile_def initial_def print_def Let_def)

lemma main_start_fields:
  "status (main_start None now None) = Running"
  "watcher (main_start None now None) = AwaitKey"
  "contents (main_start None now None) = []"
  "deferred (main_start None now None) = [FileClose, PortClose]"
  "unfailed (main_start None now None)"
  by (simp_all add: main_start_def createCSVFile_def initial_def print_def Let_def unfailed_def)

lemmas call_defs = loop_body_def checkKeys_def readChar_def log_Fatal_def os_Exit_def
  print_def writer_Flush_def csv_Write_def discard_exit_def commit_exit_def file_Close_def
  os_Remove_def Let_def

text \<open>
  As long as the process runs, the file is open and on the medium, nothing has closed
  it, and the writer's buffer is empty unless a write to the file has failed.
\<close>

lemma step_ready:
  assumes "ready st" and "status (step st e) = Running"
  shows "ready (step st e)"
  using assms
  by (auto simp: ready_def step_def call_defs
      split: event.splits read_result.splits option.splits raw_read.splits watcher_pc.splits if_splits)

lemma step_unfailed:
  assumes "ready st" and "status (step st e) = Running" and "unfailed (step st e)"
  shows "unfailed st \<and> contents (step st e) = contents st @ map entry (read_of e)"
  using assms
  by (auto simp: ready_def unfailed_def step_def call_defs read_of_def entry_def
      split: event.splits read_result.splits option.splits raw_read.splits watcher_pc.splits if_splits)

lemma step_contents:
  assumes "ready st"
  shows "(unfailed st \<and> contents (step st e) = contents st @ map entry (read_of e))
       \<or> contents (step st e) = contents st \<or> contents (step st e) = []"
  using assms
  by (auto simp: ready_def unfailed_def step_def call_defs read_of_def entry_def
      split: event.splits read_result.splits option.splits raw_read.splits watcher_pc.splits if_splits)

lemma started_run:
  assumes "status (run (main_start None now None) evs) = Running"
  shows "ready (run (main_start None now None) evs)"
  using assms
proof (induction evs rule: rev_induct)
  case Nil
  then show ?case by (simp add: run_Nil main_start_ready)
next
  case (snoc e evs)
  from snoc.prems have "status (run (main_start None now None) evs) = Running"
    by (rule run_running_before)
  then have "ready (run (main_start None now None) evs)" by (rule snoc.IH)
  moreover from snoc.prems have "status (step (run (main_start None now None) evs) e) = Running"
    by (simp add: run_snoc)
  ultimately show ?case by (simp add: run_snoc step_ready)
qed

lemma started_contents:
  assumes "status (run (main_start None now None) evs) = Running"
    and "unfailed (run (main_start None now None) evs)"
  shows "contents (run (main_start None now None) evs) = map entry (reads evs)"
  using assms
proof (induction evs rule: rev_induct)
  case Nil
  then show ?case by (simp add: run_Nil main_start_fields reads_def)
next
  case (snoc e evs)
  let ?st = "run (main_start None now None) evs"
  from snoc.prems(1) have r: "status ?st = Running"
    by (rule run_running_before)
  then have rd: "ready ?st" by (rule started_run)
  from snoc.prems have "status (step ?st e) = Running" "unfailed (step ?st e)"
    by (simp_all add: run_snoc)
  with rd have "unfailed ?st \<and> contents (step ?st e) = contents ?st @ map entry (read_of e)"
    by (rule step_unfailed)
  with snoc.IH [OF r] show ?case by (simp add: run_snoc reads_def)
qed

subsection \<open>The key watcher\<close>

text \<open>
  C4: a single byte read by the key watcher at the head of its loop ends the session if
  and only if it is the discard code 0x18 (Ctrl+X).
\<close>

theorem discard_code_is_the_only_terminating_byte:
  assumes "status st = Running" and "watcher st = AwaitKey"
  shows "status (step st (Key (StdinByte b))) \<noteq> Running \<longleftrightarrow> b = CHR 0x18"
  using assms by (simp add: step_def call_defs)

theorem discard_code_is_the_only_terminating_byte_witness:
  "status (step started (Key (StdinByte (CHR 0x18)))) \<noteq> Running
   \<and> status (step started (Key (StdinByte (CHR ''x'')))) = Running"
  using discard_code_is_the_only_terminating_byte [of started "CHR 0x18"]
    discard_code_is_the_only_terminating_byte [of started "CHR ''x''"]
  by (simp add: started_def main_start_fields)




lemma step_serial_data:
  assumes "ready st" and "unfailed st"
  shows "status (step st (Serial (ReadData d) t None)) = Running"
    and "watcher (step st (Serial (ReadData d) t None)) = watcher st"
    and "unfailed (step st (Serial (ReadData d) t None))"
  using assms
  by (auto simp: ready_def unfailed_def step_def loop_body_def print_def csv_Write_def
      writer_Flush_def Let_def split: option.splits)

lemma started_two_reads:
  "status (run started [Serial (ReadData ''A'') example_time None, Serial (ReadData ''BC'') example_time None]) = Running"
  "watcher (run started [Serial (ReadData ''A'') example_time None, Serial (ReadData ''BC'') example_time None]) = AwaitKey"
  "unfailed (run started [Serial (ReadData ''A'') example_time None, Serial (ReadData ''BC'') example_time None])"
proof -
  let ?s1 = "step started (Serial (ReadData ''A'') example_time None)"
  have r0: "ready started" and u0: "unfailed started"
    by (simp_all add: started_def main_start_ready main_start_fields)
  have s1: "status ?s1 = Running" "watcher ?s1 = AwaitKey" "unfailed ?s1"
    using step_serial_data [OF r0 u0] by (simp_all add: started_def main_start_fields)
  have r1: "ready ?s1" using r0 s1(1) by (rule step_ready)
  show "status (run started [Serial (ReadData ''A'') example_time None, Serial (ReadData ''BC'') example_time None]) = Running"
    "watcher (run started [Serial (ReadData ''A'') example_time None, Serial (ReadData ''BC'') example_time None]) = AwaitKey"
    "unfailed (run started [Serial (ReadData ''A'') example_time None, Serial (ReadData ''BC'') example_time None])"
    using step_serial_data [OF r1 s1(3)] s1 by (simp_all add: run_Cons run_Nil)
qed

text \<open>
  C5: when the key watcher reads the discard code at the head of its loop, the file is
  closed (once) and removed from the medium and the process exits with code 0, whatever
  the reads before it have appended.
\<close>

theorem discard_leaves_no_artifact:
  assumes "status (run (main_start None now None) evs) = Running"
    and "watcher (run (main_start None now None) evs) = AwaitKey"
  shows "status (run (main_start None now None) (evs @ [Key (StdinByte (CHR 0x18))])) = Exited 0
       \<and> \<not> on_medium (run (main_start None now None) (evs @ [Key (StdinByte (CHR 0x18))]))
       \<and> contents (run (main_start None now None) (evs @ [Key (StdinByte (CHR 0x18))])) = []
       \<and> \<not> handle_open (run (main_start None now None) (evs @ [Key (StdinByte (CHR 0x18))]))
       \<and> close_calls (run (main_start None now None) (evs @ [Key (StdinByte (CHR 0x18))])) = 1
       \<and> exitWithoutSaving (run (main_start None now None) (evs @ [Key (StdinByte (CHR 0x18))]))"
proof -
  let ?st = "run (main_start None now None) evs"
  have "ready ?st" using assms(1) by (rule started_run)
  then show ?thesis using assms(2)
    by (simp add: run_snoc step_def ready_def checkKeys_def readChar_def discard_exit_def
        os_Exit_def print_def file_Close_def os_Remove_def Let_def)
qed

theorem discard_leaves_no_artifact_witness:
  "status (run started [Serial (ReadData ''A'') example_time None, Serial (ReadData ''BC'') example_time None]) = Running
   \<and> \<not> on_medium (run started [Serial (ReadData ''A'') example_time None,
        Serial (ReadData ''BC'') example_time None, Key (StdinByte (CHR 0x18))])
   \<and> close_calls (run started [Serial (ReadData ''A'') example_time None,
        Serial (ReadData ''BC'') example_time None, Key (StdinByte (CHR 0x18))]) = 1"
  using discard_leaves_no_artifact [of example_time
      "[Serial (ReadData ''A'') example_time None, Serial (ReadData ''BC'') example_time None]"]
    started_two_reads
  by (simp add: started_def)

subsection \<open>Fatal errors and exit codes\<close>

text \<open>
  The errors that the program looks at end it with code 1, and both key sequences end
  it with code 0. A failed serial read changes nothing but the console and the status.
\<close>

lemma read_error_is_fatal:
  assumes "status st = Running"
  shows "step st (Serial (ReadError e) now m)
           = st\<lparr>medium_fault := m, status := Exited 1,
                console := console st @ [''Failed to read from serial port: '' @ e]\<rparr>"
  using assms by (simp add: step_def loop_body_def log_Fatal_def os_Exit_def print_def)

lemma kept_write_error_is_fatal:
  assumes "ready st" and "\<not> unfailed st"
  shows "status (step st (Serial (ReadData d) now m)) = Exited 1"
    and "contents (step st (Serial (ReadData d) now m)) = contents st"
    and "close_calls (step st (Serial (ReadData d) now m)) = 0"
  using assms
  by (auto simp: ready_def unfailed_def step_def loop_body_def csv_Write_def log_Fatal_def
      os_Exit_def print_def Let_def split: option.splits)

lemma exit_codes_of_handled_paths:
  "status (main_start (Some e) now c) = Exited 1"
  "status (main_start None now (Some e)) = Exited 1"
  "status st = Running \<Longrightarrow> status (step st (Serial (ReadError e) now m)) = Exited 1"
  "status st = Running \<Longrightarrow> watcher st = AwaitKey \<Longrightarrow> status (step st (Key (StdinByte (CHR 0x18)))) = Exited 0"
  "status st = Running \<Longrightarrow> watcher st = AwaitNextKey \<Longrightarrow> b = CHR ''c'' \<or> b = CHR ''C'' \<Longrightarrow>
     status (step st (Key (StdinByte b))) = Exited 0"
  by (auto simp: main_start_def createCSVFile_def initial_def step_def call_defs)

text \<open>
  C7: the session in which the medium rejects the write of the first entry. The read
  succeeds and \<^verbatim>\<open>writer.Write\<close> returns \<^verbatim>\<open>nil\<close>; the append fails inside
  \<^verbatim>\<open>writer.Flush()\<close>, whose error the program never reads. Nothing is reported, the
  process keeps running and the entry is not in the file. The error comes out only if
  there is a next read, as the error of its \<^verbatim>\<open>writer.Write\<close>.
\<close>

theorem rejected_append_is_not_reported:
  "status (run started [Serial (ReadData ''A'') example_time (Some ''no space left on device'')]) = Running
   \<and> console (run started [Serial (ReadData ''A'') example_time (Some ''no space left on device'')])
        = console started @ [''Data received: A'']
   \<and> contents (run started [Serial (ReadData ''A'') example_time (Some ''no space left on device'')]) = []
   \<and> status (run started [Serial (ReadData ''A'') example_time (Some ''no space left on device''),
        Serial (ReadData ''B'') example_time None]) = Exited 1
   \<and> console (run started [Serial (ReadData ''A'') example_time (Some ''no space left on device''),
        Serial (ReadData ''B'') example_time None])
        = console started @ [''Data received: A'', ''Data received: B'',
            ''Failed to write to CSV: no space left on device'']"
  by (simp add: started_def run_def step_def main_start_def createCSVFile_def initial_def call_defs)

text \<open>
  C6: the same rejected append, followed by the commit sequence. The storage error has
  happened, and the process exits with code 0.
\<close>

theorem commit_after_rejected_append_exits_zero:
  "status (run started [Serial (ReadData ''A'') example_time (Some ''no space left on device''),
      Key (StdinByte (CHR 0x1B)), Key (StdinByte (CHR ''c''))]) = Exited 0
   \<and> map_option sticky (writer_g (run started [Serial (ReadData ''A'') example_time (Some ''no space left on device''),
      Key (StdinByte (CHR 0x1B)), Key (StdinByte (CHR ''c''))])) = Some (Some ''no space left on device'')"
  by (simp add: started_def run_def step_def main_start_def createCSVFile_def initial_def call_defs)

subsection \<open>Closing the file\<close>

text \<open>
  C1: the session in which the first serial read fails. The process exits with code 1
  while the file's handle is still open: \<^verbatim>\<open>file.Close()\<close> has been called zero
  times, and the close registered by \<^verbatim>\<open>defer\<close> is still waiting, since
  \<^verbatim>\<open>log.Fatalf\<close> leaves through \<^verbatim>\<open>os.Exit\<close>.
\<close>

theorem fatal_read_error_closes_nothing:
  "status (run (main_start None example_time None) [Serial (ReadError ''EOF'') example_time None]) = Exited 1
   \<and> close_calls (run (main_start None example_time None) [Serial (ReadError ''EOF'') example_time None]) = 0
   \<and> handle_open (run (main_start None example_time None) [Serial (ReadError ''EOF'') example_time None])
   \<and> deferred (run (main_start None example_time None) [Serial (ReadError ''EOF'') example_time None])
        = [FileClose, PortClose]"
  by (simp add: run_def step_def main_start_def createCSVFile_def initial_def loop_body_def
      log_Fatal_def os_Exit_def print_def Let_def)

text \<open>No session calls \<^verbatim>\<open>file.Close()\<close> twice.\<close>

lemma step_close_calls:
  assumes "ready st"
  shows "close_calls (step st e) \<le> 1"
  using assms
  by (auto simp: ready_def step_def call_defs nil_panic_def
      split: event.splits read_result.splits option.splits raw_read.splits watcher_pc.splits)

lemma close_calls_at_most_one: "close_calls (run (main_start None now None) evs) \<le> 1"
proof (induction evs rule: rev_induct)
  case Nil
  then show ?case using main_start_ready [of now] by (simp add: run_Nil ready_def)
next
  case (snoc e evs)
  show ?case
  proof (cases "status (run (main_start None now None) evs) = Running")
    case True
    then have "ready (run (main_start None now None) evs)" by (rule started_run)
    then show ?thesis using step_close_calls [of "run (main_start None now None) evs" e]
      by (simp add: run_snoc)
  next
    case False
    then show ?thesis using snoc by (simp add: run_snoc step_exited)
  qed
qed

subsection \<open>The record\<close>

text \<open>
  As long as no write to the file has failed, the buffer is empty between two steps
  and the file holds the entries of all successful reads; the commit sequence then
  leaves exactly these entries in the file.
\<close>

lemma written_through_while_unfailed:
  assumes "status (run (main_start None now None) evs) = Running"
    and "unfailed (run (main_start None now None) evs)"
  shows "map_option buffered (writer_g (run (main_start None now None) evs)) = Some []"
    and "contents (run (main_start None now None) evs) = map entry (reads evs)"
proof -
  have "ready (run (main_start None now None) evs)"
    using assms(1) by (rule started_run)
  then show "map_option buffered (writer_g (run (main_start None now None) evs)) = Some []"
    using assms(2) by (auto simp: ready_def unfailed_def split: option.splits)
  show "contents (run (main_start None now None) evs) = map entry (reads evs)"
    using assms by (rule started_contents)
qed

lemma commit_keeps_the_file:
  assumes "status (run (main_start None now None) evs) = Running"
    and "watcher (run (main_start None now None) evs) = AwaitKey"
    and "b = CHR ''c'' \<or> b = CHR ''C''"
  shows "status (run (main_start None now None) (evs @ [Key (StdinByte (CHR 0x1B)), Key (StdinByte b)])) = Exited 0"
    and "on_medium (run (main_start None now None) (evs @ [Key (StdinByte (CHR 0x1B)), Key (StdinByte b)]))"
    and "close_calls (run (main_start None now None) (evs @ [Key (StdinByte (CHR 0x1B)), Key (StdinByte b)])) = 1"
    and "contents (run (main_start None now None) (evs @ [Key (StdinByte (CHR 0x1B)), Key (StdinByte b)]))
           = contents (run (main_start None now None) evs)"
proof -
  let ?st = "run (main_start None now None) evs"
  let ?st' = "run (main_start None now None) (evs @ [Key (StdinByte (CHR 0x1B)), Key (StdinByte b)])"
  have r: "ready ?st" using assms(1) by (rule started_run)
  have e: "?st' = commit_exit (?st\<lparr>watcher := AwaitNextKey\<rparr>)"
    using r assms(2,3)
    by (auto simp: run_append run_Cons run_Nil step_def ready_def checkKeys_def readChar_def)
  show "status ?st' = Exited 0" "on_medium ?st'" "close_calls ?st' = 1" "contents ?st' = contents ?st"
    using r unfolding e
    by (auto simp: ready_def commit_exit_def os_Exit_def print_def writer_Flush_def
        file_Close_def Let_def split: option.splits)
qed

text \<open>
  C10: the session in which the medium rejects the write of the first entry. After the
  iteration the process is still running, the entry is in the writer's buffer and not
  in the file, and a further flush, as the commit branch does it, writes nothing.
\<close>

theorem rejected_flush_leaves_entry_in_buffer:
  "status (run started [Serial (ReadData ''A'') example_time (Some ''no space left on device'')]) = Running
   \<and> map_option buffered (writer_g (run started [Serial (ReadData ''A'') example_time (Some ''no space left on device'')]))
        = Some [[Format_ms example_time, ''A'']]
   \<and> contents (run started [Serial (ReadData ''A'') example_time (Some ''no space left on device'')]) = []
   \<and> contents (writer_Flush (run started [Serial (ReadData ''A'') example_time (Some ''no space left on device'')])) = []"
  by (simp add: started_def run_def step_def main_start_def createCSVFile_def initial_def call_defs)

text \<open>
  C2: one successful read, of the chunk \<open>A\<close>, on a medium that rejects the write, then
  the commit sequence. The process exits with code 0 and the file stays on the medium,
  with no entry in it.
\<close>

theorem commit_after_rejected_append_saves_nothing:
  "payloads [Serial (ReadData ''A'') example_time (Some ''no space left on device''),
      Key (StdinByte (CHR 0x1B)), Key (StdinByte (CHR ''c''))] = [''A'']
   \<and> status (run started [Serial (ReadData ''A'') example_time (Some ''no space left on device''),
      Key (StdinByte (CHR 0x1B)), Key (StdinByte (CHR ''c''))]) = Exited 0
   \<and> on_medium (run started [Serial (ReadData ''A'') example_time (Some ''no space left on device''),
      Key (StdinByte (CHR 0x1B)), Key (StdinByte (CHR ''c''))])
   \<and> contents (run started [Serial (ReadData ''A'') example_time (Some ''no space left on device''),
      Key (StdinByte (CHR 0x1B)), Key (StdinByte (CHR ''c''))]) = []"
  by (simp add: payloads_def reads_def read_of_def started_def run_def step_def main_start_def
      createCSVFile_def initial_def call_defs)

subsection \<open>Rendering clock readings\<close>

lemma digit_char_less: "a < 10 \<Longrightarrow> b < 10 \<Longrightarrow> digit_char a < digit_char b \<longleftrightarrow> a < b"
  by (simp add: digit_char_def less_char_def)

lemma digit_char_eq: "a < 10 \<Longrightarrow> b < 10 \<Longrightarrow> digit_char a = digit_char b \<longleftrightarrow> a = b"
  using digit_char_less [of a b] digit_char_less [of b a] by (metis nat_neq_iff less_irrefl)

lemma digit_char_0: "digit_char 0 = CHR ''0''"
proof -
  have "(of_char (digit_char 0) :: nat) = of_char (CHR ''0'')"
    by (simp add: digit_char_def)
  then show ?thesis by (simp only: of_char_eq_iff)
qed

lemma is_digit_digit_char: "d < 10 \<Longrightarrow> is_digit (digit_char d)"
  by (simp add: is_digit_def digit_char_def less_eq_char_def)

lemma length_fixed: "length (fixed w n) = w"
  by (induction w arbitrary: n) simp_all

lemma fixed_zero: "fixed w 0 = replicate w (CHR ''0'')"
  by (induction w) (simp_all add: digit_char_0 replicate_append_same)

lemma length_digits_pos: "0 < length (digits n)"
  by (subst digits.simps) simp

lemma appendInt_fixed: "n < 10 ^ w \<Longrightarrow> 0 < w \<Longrightarrow> appendInt n w = fixed w n"
proof (induction w arbitrary: n)
  case 0
  then show ?case by simp
next
  case (Suc w)
  show ?case
  proof (cases "n < 10")
    case True
    then show ?thesis
      by (simp add: appendInt_def digits.simps [of n] fixed_zero replicate_append_same)
  next
    case False
    with Suc.prems have w: "0 < w" by (cases w) auto
    from Suc.prems have d: "n div 10 < 10 ^ w" by (simp add: less_mult_imp_div_less)
    have l: "length (digits (n div 10)) \<le> w"
      using Suc.IH [OF d w] length_fixed [of w "n div 10"]
      by (metis appendInt_def length_append length_replicate le_add2 )
    from Suc.IH [OF d w] False l show ?thesis
      by (simp add: appendInt_def digits.simps [of n] Suc_diff_le)
  qed
qed

lemma take_fixed: "take k (fixed (k + j) n) = fixed k (n div 10 ^ j)"
  by (induction j arbitrary: n) (simp_all add: length_fixed div_mult2_eq)

lemma lex_append_le:
  fixes x y :: "'a::linorder list"
  shows "length x = length y \<Longrightarrow> (x @ u \<le> y @ v) = (x < y \<or> (x = y \<and> u \<le> v))"
  by (induction x y rule: list_induct2) auto

lemma lex_append_less:
  fixes x y :: "'a::linorder list"
  shows "length x = length y \<Longrightarrow> (x @ u < y @ v) = (x < y \<or> (x = y \<and> u < v))"
  by (induction x y rule: list_induct2) auto

lemma fixed_strict_mono: "a < b \<Longrightarrow> b < 10 ^ w \<Longrightarrow> fixed w a < fixed w b"
proof (induction w arbitrary: a b)
  case 0
  then show ?case by simp
next
  case (Suc w)
  from Suc.prems have d: "b div 10 < 10 ^ w" by (simp add: less_mult_imp_div_less)
  from Suc.prems have le: "a div 10 \<le> b div 10" by (simp add: div_le_mono)
  show ?case
  proof (cases "a div 10 < b div 10")
    case True
    from Suc.IH [OF True d] show ?thesis
      by (simp add: lex_append_less length_fixed)
  next
    case False
    with le have e: "a div 10 = b div 10" by simp
    with Suc.prems(1) have "a mod 10 < b mod 10"
      by (metis div_mult_mod_eq nat_add_left_cancel_less)
    then show ?thesis
      by (simp add: e lex_append_less length_fixed digit_char_less)
  qed
qed

lemma fixed_less_iff: "a < 10 ^ w \<Longrightarrow> b < 10 ^ w \<Longrightarrow> fixed w a < fixed w b \<longleftrightarrow> a < b"
  by (metis fixed_strict_mono less_irrefl linorder_neqE_nat order_less_trans)

lemma fixed_eq_iff: "a < 10 ^ w \<Longrightarrow> b < 10 ^ w \<Longrightarrow> fixed w a = fixed w b \<longleftrightarrow> a = b"
  by (metis fixed_strict_mono less_irrefl linorder_neqE_nat)

lemma fixed_le_iff: "a < 10 ^ w \<Longrightarrow> b < 10 ^ w \<Longrightarrow> fixed w a \<le> fixed w b \<longleftrightarrow> a \<le> b"
  by (metis fixed_less_iff fixed_eq_iff le_less)


lemma Format_ms_fixed:
  assumes "civil t"
  shows "Format_ms t = fixed 4 (tm_year t) @ ''-'' @ fixed 2 (tm_month t) @ ''-'' @ fixed 2 (tm_day t)
     @ '' '' @ fixed 2 (tm_hour t) @ '':'' @ fixed 2 (tm_minute t) @ '':'' @ fixed 2 (tm_second t)
     @ ''.'' @ fixed 3 (tm_nanosecond t div 1000000)"
proof -
  have y: "appendInt (tm_year t) 4 = fixed 4 (tm_year t)"
    using assms by (intro appendInt_fixed) (simp_all add: civil_def)
  have mo: "appendInt (tm_month t) 2 = fixed 2 (tm_month t)"
    using assms by (intro appendInt_fixed) (simp_all add: civil_def)
  have d: "appendInt (tm_day t) 2 = fixed 2 (tm_day t)"
    using assms by (intro appendInt_fixed) (simp_all add: civil_def)
  have h: "appendInt (tm_hour t) 2 = fixed 2 (tm_hour t)"
    using assms by (intro appendInt_fixed) (simp_all add: civil_def)
  have mi: "appendInt (tm_minute t) 2 = fixed 2 (tm_minute t)"
    using assms by (intro appendInt_fixed) (simp_all add: civil_def)
  have s: "appendInt (tm_second t) 2 = fixed 2 (tm_second t)"
    using assms by (intro appendInt_fixed) (simp_all add: civil_def)
  have "appendInt (tm_nanosecond t) 9 = fixed (3 + 6) (tm_nanosecond t)"
    using assms appendInt_fixed [of "tm_nanosecond t" 9] by (simp add: civil_def)
  then have n: "take 3 (appendInt (tm_nanosecond t) 9) = fixed 3 (tm_nanosecond t div 1000000)"
    by (simp only: take_fixed) simp
  show ?thesis
    unfolding Format_ms_def y mo d h mi s n ..
qed


lemma Format_ms_le_iff:
  assumes "civil a" and "civil b"
  shows "Format_ms a \<le> Format_ms b \<longleftrightarrow> stamp_key a \<le> stamp_key b"
proof -
  have ba: "tm_year a < 10 ^ 4" "tm_month a < 10 ^ 2" "tm_day a < 10 ^ 2" "tm_hour a < 10 ^ 2"
    "tm_minute a < 10 ^ 2" "tm_second a < 10 ^ 2" "tm_nanosecond a div 1000000 < 10 ^ 3"
    using assms(1) by (simp_all add: civil_def less_mult_imp_div_less)
  have bb: "tm_year b < 10 ^ 4" "tm_month b < 10 ^ 2" "tm_day b < 10 ^ 2" "tm_hour b < 10 ^ 2"
    "tm_minute b < 10 ^ 2" "tm_second b < 10 ^ 2" "tm_nanosecond b div 1000000 < 10 ^ 3"
    using assms(2) by (simp_all add: civil_def less_mult_imp_div_less)
  note it = fixed_less_iff fixed_eq_iff fixed_le_iff
  have e: "fixed 3 (tm_nanosecond a div 1000000) \<le> fixed 3 (tm_nanosecond b div 1000000)
      \<longleftrightarrow> tm_nanosecond a div 1000000 \<le> tm_nanosecond b div 1000000"
    using ba(7) bb(7) by (rule fixed_le_iff)
  show ?thesis
    unfolding Format_ms_fixed [OF assms(1)] Format_ms_fixed [OF assms(2)] stamp_key_def
    by (simp add: lex_append_le length_fixed it [OF ba(1) bb(1)] it [OF ba(2) bb(2)]
        it [OF ba(3) bb(3)] it [OF ba(4) bb(4)] it [OF ba(5) bb(5)] it [OF ba(6) bb(6)] e
        del: fixed.simps) (simp add: order_le_less)
qed



lemma drop_Format_ms:
  assumes "civil t"
  shows "drop 20 (Format_ms t) = fixed 3 (tm_nanosecond t div 1000000)"
  unfolding Format_ms_fixed [OF assms]
  by (simp add: length_fixed del: fixed.simps)

lemma fixed2: "fixed 2 n = [digit_char (n div 10 mod 10), digit_char (n mod 10)]"
proof -
  have "fixed 2 n = fixed (Suc (Suc 0)) n"
    by (simp only: numeral_2_eq_2)
  then show ?thesis by simp
qed

lemma fixed3:
  "fixed 3 n = [digit_char (n div 10 div 10 mod 10), digit_char (n div 10 mod 10), digit_char (n mod 10)]"
proof -
  have "fixed 3 n = fixed (Suc (Suc (Suc 0))) n"
    by (simp only: numeral_3_eq_3)
  then show ?thesis by simp
qed

lemma fixed4:
  "fixed 4 n = [digit_char (n div 10 div 10 div 10 mod 10), digit_char (n div 10 div 10 mod 10),
     digit_char (n div 10 mod 10), digit_char (n mod 10)]"
proof -
  have f: "(4::nat) = Suc (Suc (Suc (Suc 0)))" by simp
  have "fixed 4 n = fixed (Suc (Suc (Suc (Suc 0)))) n"
    by (simp only: f)
  then show ?thesis by simp
qed

lemma matches_layout_Format_ms:
  assumes "civil t"
  shows "matches_layout (Format_ms t)"
  unfolding Format_ms_fixed [OF assms] matches_layout_def fixed2 fixed3 fixed4
  by (simp add: is_digit_digit_char)


lemma lex_last_mono:
  fixes p q :: "nat list"
  assumes "length p = length q" and "p @ [x] \<le> q @ [y]" and "x \<le> y \<Longrightarrow> x' \<le> y'"
  shows "p @ [x'] \<le> q @ [y']"
  using assms by (auto simp: lex_append_le)

lemma chron_stamp_key:
  assumes "chron a \<le> chron b"
  shows "stamp_key a \<le> stamp_key b"
proof -
  have "[tm_year a, tm_month a, tm_day a, tm_hour a, tm_minute a, tm_second a] @ [tm_nanosecond a div 1000000]
      \<le> [tm_year b, tm_month b, tm_day b, tm_hour b, tm_minute b, tm_second b] @ [tm_nanosecond b div 1000000]"
  proof (rule lex_last_mono [where x = "tm_nanosecond a" and y = "tm_nanosecond b"])
    show "length [tm_year a, tm_month a, tm_day a, tm_hour a, tm_minute a, tm_second a]
        = length [tm_year b, tm_month b, tm_day b, tm_hour b, tm_minute b, tm_second b]"
      by simp
    show "[tm_year a, tm_month a, tm_day a, tm_hour a, tm_minute a, tm_second a] @ [tm_nanosecond a]
        \<le> [tm_year b, tm_month b, tm_day b, tm_hour b, tm_minute b, tm_second b] @ [tm_nanosecond b]"
      using assms by (simp add: chron_def)
    show "tm_nanosecond a \<le> tm_nanosecond b
        \<Longrightarrow> tm_nanosecond a div 1000000 \<le> tm_nanosecond b div 1000000"
      by (rule div_le_mono)
  qed
  then show ?thesis by (simp add: stamp_key_def)
qed

lemma Format_ms_mono: "civil a \<Longrightarrow> civil b \<Longrightarrow> chron a \<le> chron b \<Longrightarrow> Format_ms a \<le> Format_ms b"
  by (simp add: Format_ms_le_iff chron_stamp_key)

lemma reads_append: "reads (xs @ ys) = reads xs @ reads ys"
  by (simp add: reads_def)

text \<open>
  At any time the file holds the entries of the successful reads among the first \<open>k\<close>
  events, for some \<open>k\<close>: of all reads so far, or of those before the first rejected
  write or before the end of the process, or of none after a discard.
\<close>

lemma contents_prefix:
  "\<exists>k\<le>length evs. contents (run (main_start None now None) evs) = map entry (reads (take k evs))"
proof (induction evs rule: rev_induct)
  case Nil
  then show ?case by (simp add: run_Nil main_start_fields reads_def)
next
  case (snoc e evs)
  let ?st = "run (main_start None now None) evs"
  from snoc obtain k where k: "k \<le> length evs" "contents ?st = map entry (reads (take k evs))"
    by blast
  show ?case
  proof (cases "status ?st = Running")
    case False
    then have "run (main_start None now None) (evs @ [e]) = ?st"
      by (simp add: run_snoc step_exited)
    with k show ?thesis by (intro exI [of _ k]) simp
  next
    case True
    then have r: "ready ?st" by (rule started_run)
    from step_contents [OF r, of e] show ?thesis
    proof (elim disjE conjE)
      assume u: "unfailed ?st" and c: "contents (step ?st e) = contents ?st @ map entry (read_of e)"
      from True u have "contents ?st = map entry (reads evs)" by (rule started_contents)
      with c have "contents (run (main_start None now None) (evs @ [e])) = map entry (reads (evs @ [e]))"
        by (simp add: run_snoc reads_def)
      then show ?thesis by (intro exI [of _ "length (evs @ [e])"]) simp
    next
      assume "contents (step ?st e) = contents ?st"
      with k show ?thesis by (intro exI [of _ k]) (simp add: run_snoc)
    next
      assume "contents (step ?st e) = []"
      then show ?thesis by (intro exI [of _ 0]) (simp add: run_snoc reads_def)
    qed
  qed
qed

lemma reads_take_prefix: "\<exists>zs. reads evs = reads (take k evs) @ zs"
  by (metis append_take_drop_id reads_append)


lemma digit_char_numerals:
  "digit_char 0 = CHR ''0''" "digit_char 1 = CHR ''1''" "digit_char 2 = CHR ''2''"
  "digit_char 3 = CHR ''3''" "digit_char 4 = CHR ''4''" "digit_char 5 = CHR ''5''"
  "digit_char 6 = CHR ''6''" "digit_char 7 = CHR ''7''" "digit_char 8 = CHR ''8''"
  "digit_char 9 = CHR ''9''" "digit_char (Suc 0) = CHR ''1''"
proof -
  have e: "(of_char c :: nat) = of_char d \<Longrightarrow> c = d" for c d
    by (simp only: of_char_eq_iff)
  show "digit_char 0 = CHR ''0''" by (rule e) (simp add: digit_char_def)
  show "digit_char 1 = CHR ''1''" by (rule e) (simp add: digit_char_def)
  show "digit_char 2 = CHR ''2''" by (rule e) (simp add: digit_char_def)
  show "digit_char 3 = CHR ''3''" by (rule e) (simp add: digit_char_def)
  show "digit_char 4 = CHR ''4''" by (rule e) (simp add: digit_char_def)
  show "digit_char 5 = CHR ''5''" by (rule e) (simp add: digit_char_def)
  show "digit_char 6 = CHR ''6''" by (rule e) (simp add: digit_char_def)
  show "digit_char 7 = CHR ''7''" by (rule e) (simp add: digit_char_def)
  show "digit_char 8 = CHR ''8''" by (rule e) (simp add: digit_char_def)
  show "digit_char 9 = CHR ''9''" by (rule e) (simp add: digit_char_def)
  show "digit_char (Suc 0) = CHR ''1''" by (rule e) (simp add: digit_char_def)
qed

lemma civil_examples: "civil example_time" "civil later_time" "civil before_set_back" "civil after_set_back"
  by (simp_all add: civil_def example_time_def later_time_def before_set_back_def after_set_back_def)

lemma Format_ms_example: "Format_ms example_time = ''2024-09-08 13:45:23.123''"
  unfolding Format_ms_fixed [OF civil_examples(1)] fixed2 fixed3 fixed4
  by (simp add: example_time_def digit_char_numerals)

lemma sorted_Format_ms:
  assumes "\<forall>p\<in>set xs. civil (fst p)" and "sorted (map (\<lambda>p. chron (fst p)) xs)"
  shows "sorted (map (\<lambda>p. Format_ms (fst p)) xs)"
  using assms by (induction xs) (auto intro: Format_ms_mono)


lemma hd_entry: "map hd (map entry xs) = map (\<lambda>p. Format_ms (fst p)) xs"
  by (simp add: entry_def)

subsection \<open>Timestamps\<close>

text \<open>
  C8 as stated does not hold. The timestamp is the local wall-clock reading of
  \<^verbatim>\<open>time.Now()\<close>, and nothing else orders the entries: with a first read at
  01:59:59.900 and a second read after the clock was set back, at 01:00:00.100, the
  committed record has its two timestamps in decreasing order.
\<close>

theorem timestamps_step_back_with_the_clock:
  "\<not> sorted (map hd (contents (run (main_start None before_set_back None)
      [Serial (ReadData ''A'') before_set_back None, Serial (ReadData ''B'') after_set_back None,
       Key (StdinByte (CHR 0x1B)), Key (StdinByte (CHR ''c''))])))"
proof -
  have "contents (run (main_start None before_set_back None)
      [Serial (ReadData ''A'') before_set_back None, Serial (ReadData ''B'') after_set_back None,
       Key (StdinByte (CHR 0x1B)), Key (StdinByte (CHR ''c''))])
     = [[Format_ms before_set_back, ''A''], [Format_ms after_set_back, ''B'']]"
    by (simp add: run_def step_def main_start_def createCSVFile_def initial_def call_defs)
  moreover have "\<not> Format_ms before_set_back \<le> Format_ms after_set_back"
    by (simp add: Format_ms_le_iff civil_examples)
       (simp add: stamp_key_def before_set_back_def after_set_back_def)
  ultimately show ?thesis by simp
qed

text \<open>
  C8, amended: the timestamps in the file are, in order, the renderings of the clock
  readings taken at the successful reads (of all of them, or of those up to the step
  that ended the process or up to the first write that the medium rejected; none after a
  discard). If these readings are calendar times
  that never step back, the timestamps in the file are in non-decreasing order.
\<close>

theorem timestamps_follow_the_clock:
  assumes "\<forall>p\<in>set (reads evs). civil (fst p)"
    and "sorted (map (\<lambda>p. chron (fst p)) (reads evs))"
  shows "(\<exists>k\<le>length evs. map hd (contents (run (main_start None now None) evs))
            = map (\<lambda>p. Format_ms (fst p)) (reads (take k evs)))
       \<and> sorted (map hd (contents (run (main_start None now None) evs)))"
proof -
  obtain k where k: "k \<le> length evs"
    and c: "contents (run (main_start None now None) evs) = map entry (reads (take k evs))"
    using contents_prefix by blast
  obtain zs where z: "reads evs = reads (take k evs) @ zs"
    using reads_take_prefix by blast
  have h: "map hd (contents (run (main_start None now None) evs))
      = map (\<lambda>p. Format_ms (fst p)) (reads (take k evs))"
    by (simp only: c hd_entry)
  have "\<forall>p\<in>set (reads (take k evs)). civil (fst p)"
    using assms(1) by (subst (asm) z) simp
  moreover have "sorted (map (\<lambda>p. chron (fst p)) (reads (take k evs)))"
    using assms(2) by (subst (asm) z) (simp add: sorted_append)
  ultimately have "sorted (map (\<lambda>p. Format_ms (fst p)) (reads (take k evs)))"
    by (rule sorted_Format_ms)
  with h k show ?thesis by auto
qed

theorem timestamps_follow_the_clock_witness:
  "civil example_time \<and> civil later_time \<and> chron example_time \<le> chron later_time
   \<and> sorted (map hd (contents (run started
        [Serial (ReadData ''A'') example_time None, Serial (ReadData ''BC'') later_time None])))"
proof -
  have a: "\<forall>p\<in>set (reads [Serial (ReadData ''A'') example_time None, Serial (ReadData ''BC'') later_time None]).
      civil (fst p)"
    by (simp add: reads_def read_of_def civil_examples)
  have o: "chron example_time \<le> chron later_time"
    by (simp add: chron_def example_time_def later_time_def)
  then have b: "sorted (map (\<lambda>p. chron (fst p))
        (reads [Serial (ReadData ''A'') example_time None, Serial (ReadData ''BC'') later_time None]))"
    by (simp add: reads_def read_of_def)
  have "sorted (map hd (contents (run started
        [Serial (ReadData ''A'') example_time None, Serial (ReadData ''BC'') later_time None])))"
    unfolding started_def
    by (rule timestamps_follow_the_clock [OF a b, of example_time, THEN conjunct2])
  with civil_examples(1,2) o show ?thesis by (simp only: simp_thms)
qed

text \<open>
  C9: when the clock readings are calendar times, every entry in the file has exactly
  two fields. The first has the form \<^verbatim>\<open>YYYY-MM-DD HH:MM:SS.mmm\<close> and is the
  rendering of the clock reading of one successful read, its last three characters being
  the milliseconds of that reading (three digits, the nanoseconds cut); the second is
  the chunk of that read, byte for byte.
\<close>

theorem entries_are_timestamp_and_payload:
  assumes "\<forall>p\<in>set (reads evs). civil (fst p)"
  shows "\<forall>r\<in>set (contents (run (main_start None now None) evs)).
           length r = 2 \<and> matches_layout (r ! 0)
           \<and> (\<exists>p\<in>set (reads evs). r ! 0 = Format_ms (fst p)
                 \<and> drop 20 (r ! 0) = appendInt (tm_nanosecond (fst p) div 1000000) 3
                 \<and> r ! 1 = snd p)"
proof
  fix r
  assume r: "r \<in> set (contents (run (main_start None now None) evs))"
  obtain k where c: "contents (run (main_start None now None) evs) = map entry (reads (take k evs))"
    using contents_prefix by blast
  obtain zs where z: "reads evs = reads (take k evs) @ zs"
    using reads_take_prefix by blast
  from r c obtain p where p: "p \<in> set (reads (take k evs))" and e: "r = entry p"
    by auto
  from p have p': "p \<in> set (reads evs)" by (subst z) simp
  with assms have cv: "civil (fst p)" by blast
  then have "tm_nanosecond (fst p) div 1000000 < 10 ^ 3"
    by (simp add: civil_def less_mult_imp_div_less)
  then have m: "appendInt (tm_nanosecond (fst p) div 1000000) 3 = fixed 3 (tm_nanosecond (fst p) div 1000000)"
    by (rule appendInt_fixed) simp
  have "length r = 2" "r ! 0 = Format_ms (fst p)" "r ! 1 = snd p"
    by (simp_all add: e entry_def)
  with matches_layout_Format_ms [OF cv] drop_Format_ms [OF cv] m p'
  show "length r = 2 \<and> matches_layout (r ! 0)
           \<and> (\<exists>p\<in>set (reads evs). r ! 0 = Format_ms (fst p)
                 \<and> drop 20 (r ! 0) = appendInt (tm_nanosecond (fst p) div 1000000) 3
                 \<and> r ! 1 = snd p)"
    by auto
qed

theorem entries_are_timestamp_and_payload_witness:
  "civil example_time
   \<and> contents (run started [Serial (ReadData ''A'') example_time None, Serial (ReadData ''BC'') example_time None])
        = [[''2024-09-08 13:45:23.123'', ''A''], [''2024-09-08 13:45:23.123'', ''BC'']]
   \<and> matches_layout ''2024-09-08 13:45:23.123''"
proof -
  let ?evs = "[Serial (ReadData ''A'') example_time None, Serial (ReadData ''BC'') example_time None]"
  have a: "\<forall>p\<in>set (reads ?evs). civil (fst p)"
    by (simp add: reads_def read_of_def civil_examples)
  have c: "contents (run started ?evs) = [[''2024-09-08 13:45:23.123'', ''A''], [''2024-09-08 13:45:23.123'', ''BC'']]"
    using started_contents [of example_time ?evs] started_two_reads(1,3)
    by (simp add: started_def reads_def read_of_def entry_def Format_ms_example)
  from entries_are_timestamp_and_payload [OF a, of example_time]
  have "\<forall>r\<in>set (contents (run started ?evs)). matches_layout (r ! 0)"
    unfolding started_def by blast
  then have "matches_layout ''2024-09-08 13:45:23.123''"
    unfolding c by simp
  with civil_examples(1) c show ?thesis by (simp only: simp_thms)
qed

end
